theory Spec2Isabelle
  imports Main
begin

section \<open>Wire messages of drogulus: \<open>drogulus/net/messages.py\<close>\<close>

subsection \<open>Python values\<close>

text \<open>
  The values that cross the codec. The module is Python 2: \<open>str\<close> is a byte string, so one
  string type stands for both text and raw bytes. A dict is kept as the list of its entries
  in insertion order (the keys of a dict are pairwise distinct). Lists and tuples are kept
  apart, since Python never equates one with the other. Floating-point numbers are left out.
\<close>

datatype pyval =
    PNone
  | PBool bool
  | PInt int
  | PStr string
  | PTuple "pyval list"
  | PList "pyval list"
  | PDict "(pyval \<times> pyval) list"

text \<open>\<open>d[k] = v\<close> on a dict: an existing key keeps its place, a new key goes last.\<close>

fun setitem :: "('k \<times> 'v) list \<Rightarrow> 'k \<Rightarrow> 'v \<Rightarrow> ('k \<times> 'v) list" where
  "setitem [] k v = [(k, v)]"
| "setitem ((k', v') # rest) k v =
     (if k' = k then (k, v) # rest else (k', v') # setitem rest k v)"

text \<open>\<open>str.lower()\<close> on the ASCII letters.\<close>

definition lower_char :: "char \<Rightarrow> char" where
  "lower_char c =
     (case map_of (zip ''ABCDEFGHIJKLMNOPQRSTUVWXYZ'' ''abcdefghijklmnopqrstuvwxyz'') c of
        None \<Rightarrow> c
      | Some l \<Rightarrow> l)"

definition lower :: "string \<Rightarrow> string" where
  "lower s = map lower_char s"

subsection \<open>What the module imports\<close>

text \<open>
  Four things come from outside the module and are parameters of the model.
  \<^item> \<open>packb\<close> and \<open>unpackb\<close> are the two functions of the msgpack library, the second one
    as the module calls it (\<open>use_list=False\<close>); \<open>None\<close> stands for an exception raised
    by the library. The type \<open>'w\<close> is that of the packed bytes.
  \<^item> \<open>VALIDATORS\<close> is the registry of the module \<open>validators\<close>. Modelled from the spec:
    the validators themselves are missing from the sources; the spec requires them to be
    total predicates that never raise, so a validator is a function into \<open>bool\<close>.
  \<^item> \<open>ERRORS\<close> is the error catalogue of \<open>drogulus.constants\<close>, from codes to texts.
  \<^item> \<open>builtin_str\<close> is Python's \<open>str()\<close> on the values that are not strings already.
\<close>

record 'w deps =
  packb :: "pyval \<Rightarrow> 'w option"
  unpackb :: "'w \<Rightarrow> pyval option"
  VALIDATORS :: "string \<rightharpoonup> (pyval \<Rightarrow> bool)"
  ERRORS :: "int \<rightharpoonup> string"
  builtin_str :: "pyval \<Rightarrow> string"

subsection \<open>The message classes\<close>

text \<open>
  Each class is a subclass of a namedtuple; \<open>fields\<close> is its \<open>_fields\<close> and
  \<open>class_name\<close> its \<open>__name__\<close>.
\<close>

datatype klass = Error | Ping | Pong | Store | FindNode | Nodes | FindValue | Value

fun fields :: "klass \<Rightarrow> string list" where
  "fields Error = [''uuid'', ''node'', ''code'', ''title'', ''details'', ''version'']"
| "fields Ping = [''uuid'', ''node'', ''version'']"
| "fields Pong = [''uuid'', ''node'', ''version'']"
| "fields Store = [''uuid'', ''node'', ''key'', ''value'', ''timestamp'', ''expires'',
                   ''public_key'', ''name'', ''meta'', ''sig'', ''version'']"
| "fields FindNode = [''uuid'', ''node'', ''key'', ''version'']"
| "fields Nodes = [''uuid'', ''node'', ''nodes'', ''version'']"
| "fields FindValue = [''uuid'', ''node'', ''key'', ''version'']"
| "fields Value = [''uuid'', ''node'', ''key'', ''value'', ''timestamp'', ''expires'',
                   ''public_key'', ''name'', ''meta'', ''sig'', ''version'']"

fun class_name :: "klass \<Rightarrow> string" where
  "class_name Error = ''Error''"
| "class_name Ping = ''Ping''"
| "class_name Pong = ''Pong''"
| "class_name Store = ''Store''"
| "class_name FindNode = ''FindNode''"
| "class_name Nodes = ''Nodes''"
| "class_name FindValue = ''FindValue''"
| "class_name Value = ''Value''"

text \<open>
  A message is an instance of one of the classes: the class and the tuple of its values.
  The constructor of a namedtuple takes exactly one argument per field and raises
  \<open>TypeError\<close> otherwise.
\<close>

datatype message = Message (klass_of: klass) (args_of: "pyval list")

datatype error =
    UnpackError
  | PackError
  | KeyError pyval
  | TypeError
  | ValueError int string "(string \<times> string) list"

definition construct :: "klass \<Rightarrow> pyval list \<Rightarrow> error + message" where
  "construct k args =
     (if length args = length (fields k) then Inr (Message k args) else Inl TypeError)"

text \<open>\<open>message._asdict()\<close>: the fields and their values, in the order of the fields.\<close>

definition asdict :: "message \<Rightarrow> (pyval \<times> pyval) list" where
  "asdict m = zip (map PStr (fields (klass_of m))) (args_of m)"

subsection \<open>\<open>to_msgpack\<close>\<close>

definition to_msgpack :: "'w deps \<Rightarrow> message \<Rightarrow> error + 'w" where
  "to_msgpack D message =
     (let name = lower (class_name (klass_of message));
          data = asdict message;
          data = setitem data (PStr ''message'') (PStr name)
      in case packb D (PDict data) of
           None \<Rightarrow> Inl PackError
         | Some raw \<Rightarrow> Inr raw)"

subsection \<open>\<open>make_message\<close>\<close>

text \<open>
  The loop over the fields, with the two accumulators \<open>args\<close> and \<open>errors\<close>. A field that
  is in the data and has no validator in the registry ends the loop with \<open>KeyError\<close>.
  The data is a dict, as \<open>from_msgpack\<close> passes it, given by its entries.
\<close>

fun validate_fields ::
  "(string \<rightharpoonup> (pyval \<Rightarrow> bool)) \<Rightarrow> (pyval \<times> pyval) list \<Rightarrow> string list \<Rightarrow>
   pyval list \<Rightarrow> (string \<times> string) list \<Rightarrow> error + (pyval list \<times> (string \<times> string) list)"
where
  "validate_fields V data [] args errors = Inr (args, errors)"
| "validate_fields V data (field # rest) args errors =
     (case map_of data (PStr field) of
        None \<Rightarrow> validate_fields V data rest args (setitem errors field ''Missing field.'')
      | Some val \<Rightarrow>
          (case V field of
             None \<Rightarrow> Inl (KeyError (PStr field))
           | Some validator \<Rightarrow>
               if \<not> validator val
               then validate_fields V data rest args (setitem errors field ''Invalid value.'')
               else validate_fields V data rest (args @ [val]) errors))"

definition make_message :: "'w deps \<Rightarrow> klass \<Rightarrow> (pyval \<times> pyval) list \<Rightarrow> error + message" where
  "make_message D k data =
     (case validate_fields (VALIDATORS D) data (fields k) [] [] of
        Inl e \<Rightarrow> Inl e
      | Inr (args, errors) \<Rightarrow>
          if errors \<noteq> []
          then (case ERRORS D 2 of
                  None \<Rightarrow> Inl (KeyError (PInt 2))
                | Some title \<Rightarrow> Inl (ValueError 2 title errors))
          else construct k args)"

subsection \<open>\<open>from_msgpack\<close>\<close>

text \<open>
  \<open>'%s is not a valid message type.' % message\<close>: a tuple on the right of \<open>%\<close> is the
  tuple of the arguments, so it must hold exactly one value; anything else is the one
  argument itself.
\<close>

definition str_of :: "'w deps \<Rightarrow> pyval \<Rightarrow> string" where
  "str_of D v = (case v of PStr s \<Rightarrow> s | _ \<Rightarrow> builtin_str D v)"

fun not_valid_text :: "'w deps \<Rightarrow> pyval \<Rightarrow> error + string" where
  "not_valid_text D (PTuple [v]) = Inr (str_of D v @ '' is not a valid message type.'')"
| "not_valid_text D (PTuple vs) = Inl TypeError"
| "not_valid_text D v = Inr (str_of D v @ '' is not a valid message type.'')"

definition unknown_request :: "'w deps \<Rightarrow> pyval \<Rightarrow> error + message" where
  "unknown_request D message =
     (case ERRORS D 2 of
        None \<Rightarrow> Inl (KeyError (PInt 2))
      | Some title \<Rightarrow>
          (case not_valid_text D message of
             Inl e \<Rightarrow> Inl e
           | Inr text \<Rightarrow> Inl (ValueError 2 title [(''context'', text)])))"

text \<open>
  \<open>data['message']\<close> raises \<open>KeyError\<close> on a dict without the key and \<open>TypeError\<close> on
  every value that is not a dict.
\<close>

definition from_msgpack :: "'w deps \<Rightarrow> 'w \<Rightarrow> error + message" where
  "from_msgpack D raw =
     (case unpackb D raw of
        None \<Rightarrow> Inl UnpackError
      | Some (PDict data) \<Rightarrow>
          (case map_of data (PStr ''message'') of
             None \<Rightarrow> Inl (KeyError (PStr ''message''))
           | Some message \<Rightarrow>
               if message = PStr ''error'' then make_message D Error data
               else if message = PStr ''ping'' then make_message D Ping data
               else if message = PStr ''pong'' then make_message D Pong data
               else if message = PStr ''store'' then make_message D Store data
               else if message = PStr ''findnode'' then make_message D FindNode data
               else if message = PStr ''nodes'' then make_message D Nodes data
               else if message = PStr ''findvalue'' then make_message D FindValue data
               else if message = PStr ''value'' then make_message D Value data
               else unknown_request D message)
      | Some _ \<Rightarrow> Inl TypeError)"

subsection \<open>A concrete instance of the imports\<close>

text \<open>
  What \<open>unpackb\<close> gives back for a packed value: MessagePack has one array type, and
  under \<open>use_list=False\<close> every array is returned as a tuple.
\<close>

primrec as_tuples :: "pyval \<Rightarrow> pyval" where
  "as_tuples PNone = PNone"
| "as_tuples (PBool b) = PBool b"
| "as_tuples (PInt i) = PInt i"
| "as_tuples (PStr s) = PStr s"
| "as_tuples (PTuple vs) = PTuple (map as_tuples vs)"
| "as_tuples (PList vs) = PTuple (map as_tuples vs)"
| "as_tuples (PDict kvs) = PDict (map (map_prod as_tuples as_tuples) kvs)"

text \<open>
  MessagePack stores an integer in at most 64 bits, signed or unsigned; \<open>packb\<close> raises
  \<open>OverflowError\<close> on a value that holds an integer outside this range. A value is
  packable when all the integers in it are inside.
\<close>

primrec ints_of :: "pyval \<Rightarrow> int list" where
  "ints_of PNone = []"
| "ints_of (PBool b) = []"
| "ints_of (PInt i) = [i]"
| "ints_of (PStr s) = []"
| "ints_of (PTuple vs) = concat (map ints_of vs)"
| "ints_of (PList vs) = concat (map ints_of vs)"
| "ints_of (PDict kvs) = concat (map (\<lambda>kv. fst kv @ snd kv) (map (map_prod ints_of ints_of) kvs))"

definition packable :: "pyval \<Rightarrow> bool" where
  "packable v = list_all (\<lambda>i. - (2 ^ 63) \<le> i \<and> i < 2 ^ 64) (ints_of v)"

text \<open>
  A stand-in for the msgpack library, to run the model on concrete inputs: the packed form
  of a packable value is the value itself, and \<open>Garbage\<close> is a byte string that does not
  parse.
\<close>

datatype wire = Garbage | Packed pyval

definition wire_packb :: "pyval \<Rightarrow> wire option" where
  "wire_packb v = (if packable v then Some (Packed v) else None)"

fun wire_unpackb :: "wire \<Rightarrow> pyval option" where
  "wire_unpackb Garbage = None"
| "wire_unpackb (Packed v) = Some (as_tuples v)"

definition is_string :: "pyval \<Rightarrow> bool" where
  "is_string v = (case v of PStr s \<Rightarrow> True | _ \<Rightarrow> False)"

definition is_bytes_of_length :: "nat \<Rightarrow> pyval \<Rightarrow> bool" where
  "is_bytes_of_length n v = (case v of PStr s \<Rightarrow> length s = n | _ \<Rightarrow> False)"

definition is_nonempty_string :: "pyval \<Rightarrow> bool" where
  "is_nonempty_string v = (case v of PStr s \<Rightarrow> s \<noteq> [] | _ \<Rightarrow> False)"

definition is_integer :: "pyval \<Rightarrow> bool" where
  "is_integer v = (case v of PInt i \<Rightarrow> True | _ \<Rightarrow> False)"

definition is_timestamp :: "pyval \<Rightarrow> bool" where
  "is_timestamp v = (case v of PInt i \<Rightarrow> 0 \<le> i | _ \<Rightarrow> False)"

definition is_string_or_integer :: "pyval \<Rightarrow> bool" where
  "is_string_or_integer v = (case v of PStr s \<Rightarrow> True | PInt i \<Rightarrow> True | _ \<Rightarrow> False)"

definition sequence_items :: "pyval \<Rightarrow> pyval list option" where
  "sequence_items v = (case v of PTuple vs \<Rightarrow> Some vs | PList vs \<Rightarrow> Some vs | _ \<Rightarrow> None)"

definition is_sequence :: "pyval \<Rightarrow> bool" where
  "is_sequence v = (case sequence_items v of None \<Rightarrow> False | Some vs \<Rightarrow> True)"

definition is_string_pair :: "pyval \<Rightarrow> bool" where
  "is_string_pair v =
     (case sequence_items v of
        Some [a, b] \<Rightarrow> is_string a \<and> is_string b
      | _ \<Rightarrow> False)"

definition is_meta :: "pyval \<Rightarrow> bool" where
  "is_meta v = (case sequence_items v of None \<Rightarrow> False | Some vs \<Rightarrow> list_all is_string_pair vs)"

definition is_string_mapping :: "pyval \<Rightarrow> bool" where
  "is_string_mapping v =
     (case v of
        PDict kvs \<Rightarrow> list_all (\<lambda>kv. is_string (fst kv) \<and> is_string (snd kv)) kvs
      | _ \<Rightarrow> False)"

text \<open>
  Modelled from the spec: the registry \<open>VALIDATORS\<close> of the module \<open>validators\<close>, which is
  not among the sources. The spec's data model and wire types give, per field: \<open>uuid\<close> a
  non-empty string; \<open>node\<close> and \<open>key\<close> byte strings of the width of a SHA-512 hash
  (64 bytes); \<open>version\<close> a string or an integer; \<open>code\<close> and \<open>expires\<close> integers;
  \<open>timestamp\<close> a non-negative integer; \<open>title\<close>, \<open>name\<close>, \<open>public_key\<close> and \<open>sig\<close>
  strings; \<open>details\<close> a mapping from strings to strings; \<open>meta\<close> a sequence of
  two-element sequences of strings; \<open>nodes\<close> a sequence, its items opaque. The spec puts no
  condition on \<open>value\<close>.
\<close>

definition spec_VALIDATORS :: "string \<rightharpoonup> (pyval \<Rightarrow> bool)" where
  "spec_VALIDATORS =
     map_of
       [(''uuid'', is_nonempty_string),
        (''node'', is_bytes_of_length 64),
        (''version'', is_string_or_integer),
        (''code'', is_integer),
        (''title'', is_string),
        (''details'', is_string_mapping),
        (''key'', is_bytes_of_length 64),
        (''value'', \<lambda>v. True),
        (''timestamp'', is_timestamp),
        (''expires'', is_integer),
        (''public_key'', is_string),
        (''name'', is_string),
        (''meta'', is_meta),
        (''sig'', is_string),
        (''nodes'', is_sequence)]"

text \<open>
  The instance: the stand-in library, the registry above, a catalogue that has the code 2,
  and a \<open>str()\<close> that is not looked at by any of the inputs below.
\<close>

definition example_deps :: "wire deps" where
  "example_deps =
     \<lparr> packb = wire_packb,
       unpackb = wire_unpackb,
       VALIDATORS = spec_VALIDATORS,
       ERRORS = [2 \<mapsto> ''Unknown message type''],
       builtin_str = (\<lambda>v. ''<object>'') \<rparr>"

text \<open>A 64-byte node id, an 8-byte one, and the ping of the spec's scenario.\<close>

definition node64 :: pyval where
  "node64 = PStr (replicate 64 CHR ''n'')"

definition node8 :: pyval where
  "node8 = PStr (replicate 8 CHR ''n'')"

definition ping_data :: "pyval \<Rightarrow> (pyval \<times> pyval) list" where
  "ping_data node =
     [(PStr ''message'', PStr ''ping''),
      (PStr ''uuid'', PStr ''abc123''),
      (PStr ''node'', node),
      (PStr ''version'', PStr ''1.0'')]"

subsection \<open>Notions used to state the properties\<close>

text \<open>
  The tag of a class is its lower-cased name; \<open>known_tags\<close> are the eight strings that
  \<open>from_msgpack\<close> compares the \<open>message\<close> entry with.
\<close>

definition tag :: "klass \<Rightarrow> string" where
  "tag k = lower (class_name k)"

definition known_tags :: "string list" where
  "known_tags = [''error'', ''ping'', ''pong'', ''store'', ''findnode'', ''nodes'', ''findvalue'', ''value'']"

definition missing :: "(pyval \<times> pyval) list \<Rightarrow> string \<Rightarrow> bool" where
  "missing data f = (map_of data (PStr f) = None)"

definition invalid :: "(string \<rightharpoonup> (pyval \<Rightarrow> bool)) \<Rightarrow> (pyval \<times> pyval) list \<Rightarrow> string \<Rightarrow> bool" where
  "invalid V data f =
     (case map_of data (PStr f) of
        None \<Rightarrow> False
      | Some v \<Rightarrow> (case V f of None \<Rightarrow> False | Some p \<Rightarrow> \<not> p v))"

definition accepted :: "(string \<rightharpoonup> (pyval \<Rightarrow> bool)) \<Rightarrow> (pyval \<times> pyval) list \<Rightarrow> string \<Rightarrow> pyval \<Rightarrow> bool" where
  "accepted V data f v =
     (map_of data (PStr f) = Some v \<and> (case V f of None \<Rightarrow> False | Some p \<Rightarrow> p v))"

definition failure :: "(pyval \<times> pyval) list \<Rightarrow> string \<Rightarrow> string" where
  "failure data f = (if missing data f then ''Missing field.'' else ''Invalid value.'')"

definition field_errors :: "(string \<rightharpoonup> (pyval \<Rightarrow> bool)) \<Rightarrow> (pyval \<times> pyval) list \<Rightarrow> string list \<Rightarrow> (string \<times> string) list" where
  "field_errors V data fs =
     map (\<lambda>f. (f, failure data f)) (filter (\<lambda>f. missing data f \<or> invalid V data f) fs)"

definition registered :: "'w deps \<Rightarrow> klass \<Rightarrow> bool" where
  "registered D k =
     list_all (\<lambda>f. case VALIDATORS D f of None \<Rightarrow> False | Some validator \<Rightarrow> True) (fields k)"

text \<open>Whether a value is a dict, the only kind of value that \<open>data['message']\<close> can read.\<close>

definition is_dict :: "pyval \<Rightarrow> bool" where
  "is_dict v = (case v of PDict d \<Rightarrow> True | _ \<Rightarrow> False)"

text \<open>
  A message is an instance of its class when it has one value per field; it passes the
  validators when each value is accepted by the validator registered for its field; it is
  free of lists when no value holds a Python list, so that packing and unpacking with
  \<open>use_list=False\<close> gives every value back as it was.
\<close>

definition is_instance :: "message \<Rightarrow> bool" where
  "is_instance m = (length (args_of m) = length (fields (klass_of m)))"

definition passes_validators :: "'w deps \<Rightarrow> message \<Rightarrow> bool" where
  "passes_validators D m =
     list_all2 (\<lambda>f v. case VALIDATORS D f of None \<Rightarrow> False | Some p \<Rightarrow> p v)
       (fields (klass_of m)) (args_of m)"

definition free_of_lists :: "message \<Rightarrow> bool" where
  "free_of_lists m = list_all (\<lambda>v. as_tuples v = v) (args_of m)"

text \<open>The dict that \<open>to_msgpack\<close> hands to \<open>packb\<close>.\<close>

definition wire_dict :: "message \<Rightarrow> (pyval \<times> pyval) list" where
  "wire_dict m = asdict m @ [(PStr ''message'', PStr (tag (klass_of m)))]"

text \<open>Decoding what encoding gives.\<close>

definition decode_encode :: "'w deps \<Rightarrow> message \<Rightarrow> error + message" where
  "decode_encode D m =
     (case to_msgpack D m of
        Inl e \<Rightarrow> Inl e
      | Inr raw \<Rightarrow> from_msgpack D raw)"

text \<open>Messages and dicts for the concrete cases.\<close>

definition ping_message :: message where
  "ping_message = Message Ping [PStr ''abc123'', node64, PStr ''1.0'']"

definition nodes_message :: "pyval \<Rightarrow> message" where
  "nodes_message nodes = Message Nodes [PStr ''abc123'', node64, nodes, PStr ''1.0'']"

definition findnode_data :: "(pyval \<times> pyval) list" where
  "findnode_data =
     [(PStr ''message'', PStr ''findnode''),
      (PStr ''uuid'', PStr ''abc123''),
      (PStr ''node'', PInt 5)]"

definition findnode_message :: message where
  "findnode_message = Message FindNode [PStr ''abc123'', node64, node64, PStr ''1.0'']"

definition ping_with_extra :: "(pyval \<times> pyval) list" where
  "ping_with_extra = ping_data node64 @ [(PStr ''extra'', PInt 1)]"

definition ping_without_version :: "(pyval \<times> pyval) list" where
  "ping_without_version =
     [(PStr ''message'', PStr ''ping''),
      (PStr ''uuid'', PStr ''abc123''),
      (PStr ''node'', node64)]"

definition big_version_ping :: message where
  "big_version_ping = Message Ping [PStr ''abc123'', node64, PInt (2 ^ 64)]"

definition tuple_tag_data :: "(pyval \<times> pyval) list" where
  "tuple_tag_data = [(PStr ''message'', PTuple [PStr ''ping'', PStr ''pong''])]"

section \<open>Properties\<close>

subsection \<open>Auxiliary facts\<close>

lemma tag_simps:
  "tag Error = ''error''" "tag Ping = ''ping''" "tag Pong = ''pong''" "tag Store = ''store''"
  "tag FindNode = ''findnode''" "tag Nodes = ''nodes''" "tag FindValue = ''findvalue''"
  "tag Value = ''value''"
  by (simp_all add: tag_def lower_def lower_char_def)

lemma tag_known: "tag k \<in> set known_tags"
  by (cases k) (simp_all add: tag_simps known_tags_def)

lemma distinct_fields: "distinct (fields k)"
  by (cases k) simp_all

lemma message_not_field: "''message'' \<notin> set (fields k)"
  by (cases k) simp_all

lemma setitem_fresh: "k \<notin> fst ` set xs \<Longrightarrow> setitem xs k v = xs @ [(k, v)]"
  by (induction xs) auto

lemma length_setitem: "length xs \<le> length (setitem xs k v)"
  by (induction xs) auto

lemma from_msgpack_known:
  assumes "unpackb D raw = Some (PDict d)"
    and "map_of d (PStr ''message'') = Some (PStr (tag k))"
  shows "from_msgpack D raw = make_message D k d"
  using assms by (cases k) (simp_all add: from_msgpack_def tag_simps)

lemma from_msgpack_unknown:
  assumes "unpackb D raw = Some (PDict d)"
    and "map_of d (PStr ''message'') = Some (PStr t)"
    and "t \<notin> set known_tags"
  shows "from_msgpack D raw = unknown_request D (PStr t)"
  using assms by (auto simp add: from_msgpack_def known_tags_def)

lemma validate_fields_registered:
  assumes "list_all (\<lambda>f. case V f of None \<Rightarrow> False | Some validator \<Rightarrow> True) fs"
    and "distinct fs"
    and "set fs \<inter> fst ` set errs = {}"
  shows "validate_fields V data fs args errs =
           Inr (args @ map (\<lambda>f. the (map_of data (PStr f)))
                         (filter (\<lambda>f. \<not> (missing data f \<or> invalid V data f)) fs),
                errs @ field_errors V data fs)"
  using assms
proof (induction fs arbitrary: args errs)
  case Nil
  then show ?case by (simp add: field_errors_def)
next
  case (Cons f fs)
  from Cons.prems obtain p where p: "V f = Some p"
    by (auto split: option.splits)
  have fresh: "f \<notin> fst ` set errs" using Cons.prems by auto
  have rest: "list_all (\<lambda>f. case V f of None \<Rightarrow> False | Some validator \<Rightarrow> True) fs" "distinct fs"
    using Cons.prems by auto
  have disj: "set fs \<inter> fst ` set (errs @ [(f, x)]) = {}" for x
    using Cons.prems by auto
  show ?case
  proof (cases "map_of data (PStr f)")
    case None
    then show ?thesis
      using Cons.IH [OF rest disj] fresh
      by (simp add: setitem_fresh field_errors_def missing_def invalid_def failure_def)
  next
    case (Some v)
    show ?thesis
    proof (cases "p v")
      case True
      then show ?thesis
        using Some p Cons.IH [OF rest] Cons.prems
        by (simp add: field_errors_def missing_def invalid_def failure_def)
    next
      case False
      then show ?thesis
        using Some p Cons.IH [OF rest disj] fresh
        by (simp add: setitem_fresh field_errors_def missing_def invalid_def failure_def)
    qed
  qed
qed

lemma validate_fields_grows:
  "validate_fields V data fs args errs = Inr (a, e) \<Longrightarrow> length errs \<le> length e"
proof (induction fs arbitrary: args errs)
  case Nil
  then show ?case by simp
next
  case (Cons f fs)
  then show ?case
    by (auto split: option.splits if_splits dest!: Cons.IH
        intro: order_trans [OF length_setitem])
qed

lemma setitem_not_Nil: "setitem xs k v \<noteq> []"
  by (induction xs k v rule: setitem.induct) simp_all

lemma validate_fields_no_errors:
  assumes "validate_fields V data fs args errs = Inr (a, [])"
  shows "errs = []"
  using validate_fields_grows [OF assms] by simp

lemma validate_fields_clean:
  "validate_fields V data fs args errs = Inr (a, []) \<longleftrightarrow>
     errs = [] \<and> (\<exists>vs. a = args @ vs \<and> list_all2 (accepted V data) fs vs)"
proof (induction fs arbitrary: args)
  case Nil
  then show ?case by auto
next
  case (Cons f fs)
  have dirty: "validate_fields V data fs args (setitem errs f x) \<noteq> Inr (a, [])" for x
    using validate_fields_no_errors [of V data fs args "setitem errs f x" a]
    by (auto simp add: setitem_not_Nil)
  show ?case
  proof (cases "map_of data (PStr f)")
    case None
    then have "\<not> list_all2 (accepted V data) (f # fs) vs" for vs
      by (auto simp add: list_all2_Cons1 accepted_def)
    then show ?thesis
      using None dirty by simp
  next
    case (Some v)
    show ?thesis
    proof (cases "V f")
      case None
      then have "\<not> list_all2 (accepted V data) (f # fs) vs" for vs
        by (auto simp add: list_all2_Cons1 accepted_def)
      then show ?thesis
        using None Some by simp
    next
      case p: (Some p)
      show ?thesis
      proof (cases "p v")
        case True
        then have step: "list_all2 (accepted V data) (f # fs) ws \<longleftrightarrow>
            (\<exists>vs. ws = v # vs \<and> list_all2 (accepted V data) fs vs)" for ws
          using Some p by (auto simp add: list_all2_Cons1 accepted_def)
        have "validate_fields V data (f # fs) args errs =
            validate_fields V data fs (args @ [v]) errs"
          using Some p True by simp
        then show ?thesis
          using Cons.IH [of "args @ [v]"] by (auto simp add: step)
      next
        case False
        then have "\<not> list_all2 (accepted V data) (f # fs) vs" for vs
          using Some p by (auto simp add: list_all2_Cons1 accepted_def)
        then show ?thesis
          using Some p False dirty by simp
      qed
    qed
  qed
qed

lemma make_message_Inr_iff:
  "make_message D k data = Inr m \<longleftrightarrow>
     klass_of m = k \<and> list_all2 (accepted (VALIDATORS D) data) (fields k) (args_of m)"
proof
  assume ok: "make_message D k data = Inr m"
  then obtain a e where run: "validate_fields (VALIDATORS D) data (fields k) [] [] = Inr (a, e)"
    by (auto simp add: make_message_def split: sum.splits)
  with ok have e: "e = []" and c: "construct k a = Inr m"
    by (auto simp add: make_message_def split: option.splits if_splits)
  from run e have "list_all2 (accepted (VALIDATORS D) data) (fields k) a"
    by (simp add: validate_fields_clean)
  moreover from c have "m = Message k a"
    by (auto simp add: construct_def split: if_splits)
  ultimately show "klass_of m = k \<and> list_all2 (accepted (VALIDATORS D) data) (fields k) (args_of m)"
    by simp
next
  assume r: "klass_of m = k \<and> list_all2 (accepted (VALIDATORS D) data) (fields k) (args_of m)"
  then have "validate_fields (VALIDATORS D) data (fields k) [] [] = Inr (args_of m, [])"
    by (simp add: validate_fields_clean)
  moreover from r have "length (args_of m) = length (fields k)"
    by (auto dest: list_all2_lengthD)
  moreover from r have "m = Message k (args_of m)"
    by (cases m) simp
  ultimately show "make_message D k data = Inr m"
    by (simp add: make_message_def construct_def)
qed

lemma make_message_registered:
  assumes "registered D k"
  shows "make_message D k data =
           (if field_errors (VALIDATORS D) data (fields k) = []
            then Inr (Message k (map (\<lambda>f. the (map_of data (PStr f))) (fields k)))
            else case ERRORS D 2 of
                   None \<Rightarrow> Inl (KeyError (PInt 2))
                 | Some title \<Rightarrow>
                     Inl (ValueError 2 title (field_errors (VALIDATORS D) data (fields k))))"
proof -
  let ?bad = "\<lambda>f. missing data f \<or> invalid (VALIDATORS D) data f"
  have run: "validate_fields (VALIDATORS D) data (fields k) [] [] =
      Inr (map (\<lambda>f. the (map_of data (PStr f))) (filter (\<lambda>f. \<not> ?bad f) (fields k)),
           field_errors (VALIDATORS D) data (fields k))"
    using validate_fields_registered [of "VALIDATORS D" "fields k" "[]" data "[]"] assms
    by (simp add: registered_def distinct_fields)
  show ?thesis
  proof (cases "field_errors (VALIDATORS D) data (fields k) = []")
    case True
    then have "filter ?bad (fields k) = []"
      by (simp add: field_errors_def)
    then have "filter (\<lambda>f. \<not> ?bad f) (fields k) = fields k"
      by (simp add: filter_empty_conv filter_id_conv)
    then show ?thesis
      using run True by (simp add: make_message_def construct_def)
  next
    case False
    then show ?thesis
      using run by (simp add: make_message_def split: option.splits)
  qed
qed

lemma asdict_lookup:
  assumes "length (args_of m) = length (fields (klass_of m))"
  shows "list_all2 (\<lambda>f v. map_of (wire_dict m) (PStr f) = Some v) (fields (klass_of m)) (args_of m)"
proof -
  let ?fs = "fields (klass_of m)"
  have inj: "distinct (map PStr ?fs)"
    by (simp add: distinct_map distinct_fields inj_on_def)
  have "map_of (zip (map PStr ?fs) (args_of m)) (map PStr ?fs ! i) = Some (args_of m ! i)"
    if "i < length ?fs" for i
    using that assms inj by (intro map_of_zip_nth) simp_all
  then show ?thesis
    using assms by (simp add: list_all2_conv_all_nth wire_dict_def asdict_def)
qed

lemma wire_dict_message:
  assumes "length (args_of m) = length (fields (klass_of m))"
  shows "map_of (wire_dict m) (PStr ''message'') = Some (PStr (tag (klass_of m)))"
proof -
  have "PStr ''message'' \<notin> set (map PStr (fields (klass_of m)))"
    using message_not_field [of "klass_of m"] by auto
  then have "map_of (asdict m) (PStr ''message'') = None"
    using assms by (simp add: asdict_def)
  then show ?thesis
    by (simp add: wire_dict_def map_add_def)
qed

lemma setitem_asdict:
  "setitem (asdict m) (PStr ''message'') (PStr (lower (class_name (klass_of m)))) = wire_dict m"
proof -
  have "PStr ''message'' \<notin> fst ` set (asdict m)"
    using message_not_field [of "klass_of m"]
    by (auto simp add: asdict_def dest!: set_zip_leftD)
  then show ?thesis
    by (simp add: setitem_fresh wire_dict_def tag_def)
qed

lemma to_msgpack_wire_dict:
  "to_msgpack D m = (case packb D (PDict (wire_dict m)) of None \<Rightarrow> Inl PackError | Some raw \<Rightarrow> Inr raw)"
  by (simp add: to_msgpack_def setitem_asdict)

lemma as_tuples_wire_dict:
  assumes "free_of_lists m"
  shows "as_tuples (PDict (wire_dict m)) = PDict (wire_dict m)"
proof -
  have "map (map_prod as_tuples as_tuples) (zip (map PStr fs) vs) = zip (map PStr fs) vs"
    if "list_all (\<lambda>v. as_tuples v = v) vs" for fs vs
    using that by (induction fs arbitrary: vs) (auto simp add: zip_Cons1 split: list.splits)
  then show ?thesis
    using assms by (simp add: free_of_lists_def wire_dict_def asdict_def)
qed

lemma packable_wire_dict:
  assumes "list_all packable (args_of m)"
  shows "packable (PDict (wire_dict m))"
proof -
  have "i \<in> \<Union> (set ` ints_of ` set (args_of m))"
    if "i \<in> set (ints_of (PDict (wire_dict m)))" for i
    using that by (auto simp add: wire_dict_def asdict_def elim!: in_set_zipE)
  then show ?thesis
    using assms by (fastforce simp add: packable_def list_all_iff)
qed

lemma validate_fields_Inl:
  "validate_fields V d fs args errs = Inl x \<Longrightarrow> \<exists>f. f \<in> set fs \<and> x = KeyError (PStr f)"
  by (induction fs arbitrary: args errs) (auto split: option.splits if_splits)

lemma make_message_Inl:
  assumes "make_message D k d = Inl x"
  shows "x \<noteq> UnpackError \<and> x \<noteq> KeyError (PStr ''message'')"
proof (cases "validate_fields (VALIDATORS D) d (fields k) [] []")
  case (Inl y)
  then obtain f where "f \<in> set (fields k)" and "y = KeyError (PStr f)"
    using validate_fields_Inl by blast
  moreover have "x = y"
    using assms Inl by (simp add: make_message_def)
  ultimately show ?thesis
    using message_not_field [of k] by auto
next
  case (Inr r)
  then show ?thesis
    using assms
    by (cases r) (auto simp add: make_message_def construct_def split: option.splits if_splits)
qed

lemma not_valid_text_Inl: "not_valid_text D v = Inl x \<Longrightarrow> x = TypeError"
  by (induction D v rule: not_valid_text.induct) simp_all

lemma unknown_request_Inl:
  assumes "unknown_request D v = Inl x"
  shows "x \<noteq> UnpackError \<and> x \<noteq> KeyError (PStr ''message'')"
  using assms not_valid_text_Inl [of D v]
  by (auto simp add: unknown_request_def split: option.splits sum.splits)

lemmas example_simps =
  example_deps_def spec_VALIDATORS_def wire_packb_def node64_def node8_def
  is_nonempty_string_def is_bytes_of_length_def is_string_or_integer_def is_sequence_def
  sequence_items_def is_string_def is_integer_def

lemma passes_validators_instance: "passes_validators D m \<Longrightarrow> is_instance m"
  by (auto simp add: passes_validators_def is_instance_def dest: list_all2_lengthD)

lemma count_field_errors:
  "length (field_errors V d fs) =
     length (filter (missing d) fs) + length (filter (invalid V d) fs)"
  by (induction fs) (auto simp add: field_errors_def missing_def invalid_def)

lemma make_message_errors:
  assumes "registered D k"
    and "ERRORS D 2 = Some title"
    and "list_ex (\<lambda>f. missing d f \<or> invalid (VALIDATORS D) d f) (fields k)"
  shows "make_message D k d = Inl (ValueError 2 title (field_errors (VALIDATORS D) d (fields k)))"
proof -
  have "field_errors (VALIDATORS D) d (fields k) \<noteq> []"
    using assms(3) by (auto simp add: field_errors_def list_ex_iff filter_empty_conv)
  then show ?thesis
    using assms(1,2) by (simp add: make_message_registered)
qed

lemma unknown_request_string:
  "ERRORS D 2 = Some title \<Longrightarrow>
   unknown_request D (PStr t) =
     Inl (ValueError 2 title [(''context'', t @ '' is not a valid message type.'')])"
  by (simp add: unknown_request_def str_of_def)

lemma known_tag_lower: "t \<in> set known_tags \<Longrightarrow> lower t = t"
  by (auto simp add: known_tags_def lower_def lower_char_def)

lemma validate_fields_cong:
  "list_all (\<lambda>f. map_of d' (PStr f) = map_of d (PStr f)) fs \<Longrightarrow>
   validate_fields V d' fs args errs = validate_fields V d fs args errs"
  by (induction fs arbitrary: args errs) (auto split: option.splits)

lemma make_message_cong:
  "list_all (\<lambda>f. map_of d' (PStr f) = map_of d (PStr f)) (fields k) \<Longrightarrow>
   make_message D k d' = make_message D k d"
  by (simp add: make_message_def validate_fields_cong)

lemma missing_reported:
  "f \<in> set fs \<Longrightarrow> missing d f \<Longrightarrow> (f, ''Missing field.'') \<in> set (field_errors V d fs)"
  by (auto simp add: field_errors_def failure_def)

lemma wire_dict_keys:
  assumes "length (args_of m) = length (fields (klass_of m))"
  shows "map fst (wire_dict m) = map PStr (fields (klass_of m) @ [''message''])"
  using assms by (simp add: wire_dict_def asdict_def)

lemma as_tuples_PStr:
  "as_tuples k = PStr f \<longleftrightarrow> k = PStr f"
  "PStr f = as_tuples k \<longleftrightarrow> k = PStr f"
  by (cases k; auto)+

lemma map_of_as_tuples:
  "map_of (map (map_prod as_tuples as_tuples) d) (PStr f) = map_option as_tuples (map_of d (PStr f))"
  by (induction d) (auto simp add: as_tuples_PStr)

subsection \<open>The round trip\<close>

text \<open>
  C1 (as amended). Let \<open>m\<close> be a message whose every value passes the validator of its
  field and holds no Python list, and let the library pack the dict of \<open>m\<close> and unpack the
  result to that dict with its arrays as tuples. Then decoding the encoding of \<open>m\<close>
  returns \<open>m\<close>. The claim as stated, for every valid message, fails: \<open>unpackb\<close> is called
  with \<open>use_list=False\<close>, so a list comes back as a tuple, which Python does not equate
  with the list.
\<close>

theorem round_trip_free_of_lists:
  assumes "passes_validators D m"
    and "free_of_lists m"
    and "packb D (PDict (wire_dict m)) = Some raw"
    and "unpackb D raw = Some (as_tuples (PDict (wire_dict m)))"
  shows "decode_encode D m = Inr m"
proof -
  have len: "length (args_of m) = length (fields (klass_of m))"
    using assms(1) passes_validators_instance by (simp add: is_instance_def)
  have enc: "to_msgpack D m = Inr raw"
    using assms(3) by (simp add: to_msgpack_wire_dict)
  have parsed: "unpackb D raw = Some (PDict (wire_dict m))"
    using assms(2,4) by (simp only: as_tuples_wire_dict)
  have "list_all2 (accepted (VALIDATORS D) (wire_dict m)) (fields (klass_of m)) (args_of m)"
    using asdict_lookup [OF len] assms(1)
    by (simp add: list_all2_conv_all_nth accepted_def passes_validators_def)
  then have "make_message D (klass_of m) (wire_dict m) = Inr m"
    by (simp add: make_message_Inr_iff)
  then have "from_msgpack D raw = Inr m"
    using from_msgpack_known [OF parsed wire_dict_message [OF len]] by simp
  then show ?thesis
    using enc by (simp add: decode_encode_def)
qed

theorem round_trip_free_of_lists_witness:
  "passes_validators example_deps ping_message \<and> free_of_lists ping_message \<and>
   packb example_deps (PDict (wire_dict ping_message)) = Some (Packed (PDict (wire_dict ping_message))) \<and>
   unpackb example_deps (Packed (PDict (wire_dict ping_message))) =
     Some (as_tuples (PDict (wire_dict ping_message))) \<and>
   decode_encode example_deps ping_message = Inr ping_message"
proof -
  have 1: "passes_validators example_deps ping_message"
    by (simp add: passes_validators_def ping_message_def example_simps)
  have 2: "free_of_lists ping_message"
    by (simp add: free_of_lists_def ping_message_def node64_def)
  have "list_all packable (args_of ping_message)"
    by (simp add: packable_def ping_message_def node64_def)
  then have 3: "packb example_deps (PDict (wire_dict ping_message)) =
      Some (Packed (PDict (wire_dict ping_message)))"
    by (simp add: example_deps_def wire_packb_def packable_wire_dict)
  have 4: "unpackb example_deps (Packed (PDict (wire_dict ping_message))) =
      Some (as_tuples (PDict (wire_dict ping_message)))"
    by (simp add: example_deps_def)
  show ?thesis
    using 1 2 3 4 round_trip_free_of_lists [OF 1 2 3 4] by simp
qed

theorem round_trip_counterexample:
  "passes_validators example_deps (nodes_message (PList [])) \<and>
   decode_encode example_deps (nodes_message (PList [])) = Inr (nodes_message (PTuple [])) \<and>
   decode_encode example_deps (nodes_message (PList [])) \<noteq> Inr (nodes_message (PList []))"
proof -
  have 1: "passes_validators example_deps (nodes_message (PList []))"
    by (simp add: passes_validators_def nodes_message_def example_simps)
  have "list_all packable (args_of (nodes_message (PList [])))"
    by (simp add: packable_def nodes_message_def node64_def)
  then have "to_msgpack example_deps (nodes_message (PList [])) =
      Inr (Packed (PDict (wire_dict (nodes_message (PList [])))))"
    by (simp add: to_msgpack_wire_dict example_deps_def wire_packb_def packable_wire_dict)
  moreover have "wire_dict (nodes_message (PList [])) =
     [(PStr ''uuid'', PStr ''abc123''), (PStr ''node'', node64), (PStr ''nodes'', PList []),
      (PStr ''version'', PStr ''1.0''), (PStr ''message'', PStr ''nodes'')]"
    by (simp add: wire_dict_def asdict_def nodes_message_def tag_simps)
  moreover have "from_msgpack example_deps (Packed (PDict
     [(PStr ''uuid'', PStr ''abc123''), (PStr ''node'', node64), (PStr ''nodes'', PList []),
      (PStr ''version'', PStr ''1.0''), (PStr ''message'', PStr ''nodes'')])) =
      Inr (nodes_message (PTuple []))"
    by (simp add: from_msgpack_def make_message_def construct_def nodes_message_def example_simps)
  ultimately have 2: "decode_encode example_deps (nodes_message (PList [])) =
      Inr (nodes_message (PTuple []))"
    by (simp add: decode_encode_def)
  have 3: "nodes_message (PTuple []) \<noteq> nodes_message (PList [])"
    by (simp add: nodes_message_def)
  show ?thesis
    using 1 2 3 by simp
qed

text \<open>
  The restriction to messages free of lists cannot be dropped, whatever the validators
  are: a message that holds a list anywhere in its values never comes back from the round
  trip, since the values that come back hold tuples only.
\<close>

lemma round_trip_loses_lists:
  assumes "is_instance m"
    and "\<not> free_of_lists m"
    and "packb D (PDict (wire_dict m)) = Some raw"
    and "unpackb D raw = Some (as_tuples (PDict (wire_dict m)))"
  shows "decode_encode D m \<noteq> Inr m"
proof
  assume returned: "decode_encode D m = Inr m"
  let ?d = "map (map_prod as_tuples as_tuples) (wire_dict m)"
  have len: "length (args_of m) = length (fields (klass_of m))"
    using assms(1) by (simp add: is_instance_def)
  have parsed: "unpackb D raw = Some (PDict ?d)"
    using assms(4) by simp
  have tagged: "map_of ?d (PStr ''message'') = Some (PStr (tag (klass_of m)))"
    by (simp add: map_of_as_tuples wire_dict_message [OF len])
  have "from_msgpack D raw = Inr m"
    using returned assms(3) by (simp add: decode_encode_def to_msgpack_wire_dict)
  then have "make_message D (klass_of m) ?d = Inr m"
    using from_msgpack_known [OF parsed tagged] by simp
  then have "list_all2 (accepted (VALIDATORS D) ?d) (fields (klass_of m)) (args_of m)"
    by (simp add: make_message_Inr_iff)
  then have "as_tuples (args_of m ! i) = args_of m ! i" if "i < length (args_of m)" for i
    using that asdict_lookup [OF len] len
    by (auto simp add: list_all2_conv_all_nth accepted_def map_of_as_tuples)
  then have "free_of_lists m"
    by (simp add: free_of_lists_def list_all_length)
  with assms(2) show False by simp
qed

subsection \<open>Failures of decoding\<close>

text \<open>
  C2. Let the decoded map carry the tag of a class whose fields all have a validator, let
  the catalogue have the code 2, and let at least one field of the class be missing from
  the map or rejected by its validator. Then decoding fails with the \<open>ValueError\<close> whose
  dict has one entry per such field, over the whole field sequence and in its order, each
  field with the text of its failure: missing, or invalid. Their number is the number of
  missing fields plus the number of invalid ones, so two missing fields and one invalid
  value give exactly three entries.
\<close>

theorem aggregate_validation:
  assumes "unpackb D raw = Some (PDict d)"
    and "map_of d (PStr ''message'') = Some (PStr (tag k))"
    and "registered D k"
    and "ERRORS D 2 = Some title"
    and "list_ex (\<lambda>f. missing d f \<or> invalid (VALIDATORS D) d f) (fields k)"
  shows "from_msgpack D raw =
           Inl (ValueError 2 title
             (map (\<lambda>f. (f, if missing d f then ''Missing field.'' else ''Invalid value.''))
                (filter (\<lambda>f. missing d f \<or> invalid (VALIDATORS D) d f) (fields k)))) \<and>
         length (filter (\<lambda>f. missing d f \<or> invalid (VALIDATORS D) d f) (fields k)) =
           length (filter (missing d) (fields k)) +
           length (filter (invalid (VALIDATORS D) d) (fields k))"
  using from_msgpack_known [OF assms(1,2)] make_message_errors [OF assms(3,4,5)]
    count_field_errors [of "VALIDATORS D" d "fields k"]
  by (simp add: field_errors_def failure_def)

theorem aggregate_validation_witness:
  "unpackb example_deps (Packed (PDict findnode_data)) = Some (PDict findnode_data) \<and>
   map_of findnode_data (PStr ''message'') = Some (PStr (tag FindNode)) \<and>
   registered example_deps FindNode \<and>
   ERRORS example_deps 2 = Some ''Unknown message type'' \<and>
   filter (missing findnode_data) (fields FindNode) = [''key'', ''version''] \<and>
   filter (invalid (VALIDATORS example_deps) findnode_data) (fields FindNode) = [''node''] \<and>
   from_msgpack example_deps (Packed (PDict findnode_data)) =
     Inl (ValueError 2 ''Unknown message type''
       [(''node'', ''Invalid value.''), (''key'', ''Missing field.''),
        (''version'', ''Missing field.'')])"
proof -
  have 1: "unpackb example_deps (Packed (PDict findnode_data)) = Some (PDict findnode_data)"
    by (simp add: example_deps_def findnode_data_def)
  have 2: "map_of findnode_data (PStr ''message'') = Some (PStr (tag FindNode))"
    by (simp add: findnode_data_def tag_simps)
  have 3: "registered example_deps FindNode"
    by (simp add: registered_def example_deps_def spec_VALIDATORS_def)
  have 4: "ERRORS example_deps 2 = Some ''Unknown message type''"
    by (simp add: example_deps_def)
  have 5: "filter (missing findnode_data) (fields FindNode) = [''key'', ''version'']"
    by (simp add: missing_def findnode_data_def)
  have 6: "filter (invalid (VALIDATORS example_deps) findnode_data) (fields FindNode) = [''node'']"
    by (simp add: invalid_def findnode_data_def example_simps)
  have 7: "list_ex (\<lambda>f. missing findnode_data f \<or> invalid (VALIDATORS example_deps) findnode_data f)
      (fields FindNode)"
    by (simp add: missing_def findnode_data_def)
  have 8: "filter (\<lambda>f. missing findnode_data f \<or> invalid (VALIDATORS example_deps) findnode_data f)
      (fields FindNode) = [''node'', ''key'', ''version'']"
    by (simp add: missing_def invalid_def findnode_data_def example_simps)
  have 9: "missing findnode_data ''key''" "missing findnode_data ''version''"
      "\<not> missing findnode_data ''node''"
    by (simp_all add: missing_def findnode_data_def)
  have 10: "from_msgpack example_deps (Packed (PDict findnode_data)) =
     Inl (ValueError 2 ''Unknown message type''
       [(''node'', ''Invalid value.''), (''key'', ''Missing field.''),
        (''version'', ''Missing field.'')])"
    using aggregate_validation [OF 1 2 3 4 7, unfolded 8] by (simp add: 9)
  from 1 2 3 4 5 6 10 show ?thesis
    by blast
qed

text \<open>
  C3. Let the \<open>message\<close> entry of the decoded map be a string that is none of the eight
  known tags, and let the catalogue have the code 2. Then decoding fails with the
  \<open>ValueError\<close> of code 2 whose context starts with the offending tag; no other
  exception is raised.
\<close>

theorem closed_tag_set:
  assumes "unpackb D raw = Some (PDict d)"
    and "map_of d (PStr ''message'') = Some (PStr t)"
    and "t \<notin> set known_tags"
    and "ERRORS D 2 = Some title"
  shows "from_msgpack D raw =
           Inl (ValueError 2 title [(''context'', t @ '' is not a valid message type.'')])"
  using from_msgpack_unknown [OF assms(1,2,3)] unknown_request_string [OF assms(4)]
  by simp

theorem closed_tag_set_witness:
  "unpackb example_deps (Packed (PDict [(PStr ''message'', PStr ''unknown'')])) =
     Some (PDict [(PStr ''message'', PStr ''unknown'')]) \<and>
   map_of [(PStr ''message'', PStr ''unknown'')] (PStr ''message'') = Some (PStr ''unknown'') \<and>
   ''unknown'' \<notin> set known_tags \<and>
   ERRORS example_deps 2 = Some ''Unknown message type'' \<and>
   from_msgpack example_deps (Packed (PDict [(PStr ''message'', PStr ''unknown'')])) =
     Inl (ValueError 2 ''Unknown message type''
       [(''context'', ''unknown is not a valid message type.'')])"
proof -
  have 1: "unpackb example_deps (Packed (PDict [(PStr ''message'', PStr ''unknown'')])) =
      Some (PDict [(PStr ''message'', PStr ''unknown'')])"
    by (simp add: example_deps_def)
  have 2: "map_of [(PStr ''message'', PStr ''unknown'')] (PStr ''message'') =
      Some (PStr ''unknown'')"
    by simp
  have 3: "''unknown'' \<notin> set known_tags"
    by (simp add: known_tags_def)
  have 4: "ERRORS example_deps 2 = Some ''Unknown message type''"
    by (simp add: example_deps_def)
  show ?thesis
    using 1 2 3 4 closed_tag_set [OF 1 2 3 4] by simp
qed

text \<open>
  C4 (as amended). Decoding fails, with no message returned, on every input that is not
  the encoding of a map with a \<open>message\<close> entry: bytes that the library does not parse
  fail with the library's exception, and nothing else does; a parsed map without the entry
  fails with \<open>KeyError\<close> of \<open>message\<close>, and nothing else does; a parsed value that is not
  a map fails with \<open>TypeError\<close>. The claim as stated fails: the module has no failure
  of its own for a malformed encoding, the three cases end in three different exceptions,
  and \<open>TypeError\<close> is also what a map with a \<open>message\<close> entry gives when the entry is a
  tuple of two values.
\<close>

theorem malformed_encoding:
  "(unpackb D raw = None \<longrightarrow> from_msgpack D raw = Inl UnpackError) \<and>
   (unpackb D raw = Some (PDict d) \<and> map_of d (PStr ''message'') = None \<longrightarrow>
      from_msgpack D raw = Inl (KeyError (PStr ''message''))) \<and>
   (unpackb D raw = Some v \<and> \<not> is_dict v \<longrightarrow> from_msgpack D raw = Inl TypeError) \<and>
   (from_msgpack D raw = Inl UnpackError \<longrightarrow> unpackb D raw = None) \<and>
   (from_msgpack D raw = Inl (KeyError (PStr ''message'')) \<longrightarrow>
      (\<exists>data. unpackb D raw = Some (PDict data) \<and> map_of data (PStr ''message'') = None))"
proof -
  have forth: "(unpackb D raw = None \<longrightarrow> from_msgpack D raw = Inl UnpackError) \<and>
     (unpackb D raw = Some (PDict d) \<and> map_of d (PStr ''message'') = None \<longrightarrow>
        from_msgpack D raw = Inl (KeyError (PStr ''message''))) \<and>
     (unpackb D raw = Some v \<and> \<not> is_dict v \<longrightarrow> from_msgpack D raw = Inl TypeError)"
    by (cases v) (simp_all add: from_msgpack_def is_dict_def)
  have dispatched: "x \<noteq> UnpackError \<and> x \<noteq> KeyError (PStr ''message'')"
    if "unpackb D raw = Some (PDict data)" and "map_of data (PStr ''message'') = Some tag'"
      and "from_msgpack D raw = Inl x" for data tag' x
    using that make_message_Inl [of D _ data x] unknown_request_Inl [of D tag' x]
    by (auto simp add: from_msgpack_def split: if_splits)
  have unpack: "unpackb D raw = None" if "from_msgpack D raw = Inl UnpackError"
  proof (cases "unpackb D raw")
    case None
    then show ?thesis .
  next
    case (Some w)
    then show ?thesis
      using that dispatched [of _ _ UnpackError]
      by (cases w) (auto simp add: from_msgpack_def split: option.splits)
  qed
  have key: "\<exists>data. unpackb D raw = Some (PDict data) \<and> map_of data (PStr ''message'') = None"
    if "from_msgpack D raw = Inl (KeyError (PStr ''message''))"
  proof (cases "unpackb D raw")
    case None
    then show ?thesis
      using that by (simp add: from_msgpack_def)
  next
    case (Some w)
    then show ?thesis
      using that dispatched [of _ _ "KeyError (PStr ''message'')"]
      by (cases w) (auto simp add: from_msgpack_def split: option.splits)
  qed
  from forth unpack key show ?thesis
    by blast
qed

theorem malformed_encoding_witness:
  "unpackb example_deps Garbage = None \<and>
   from_msgpack example_deps Garbage = Inl UnpackError \<and>
   unpackb example_deps (Packed (PDict [(PStr ''uuid'', PStr ''abc123'')])) =
     Some (PDict [(PStr ''uuid'', PStr ''abc123'')]) \<and>
   map_of [(PStr ''uuid'', PStr ''abc123'')] (PStr ''message'') = None \<and>
   from_msgpack example_deps (Packed (PDict [(PStr ''uuid'', PStr ''abc123'')])) =
     Inl (KeyError (PStr ''message'')) \<and>
   unpackb example_deps (Packed (PList [PStr ''ping''])) = Some (PTuple [PStr ''ping'']) \<and>
   \<not> is_dict (PTuple [PStr ''ping'']) \<and>
   from_msgpack example_deps (Packed (PList [PStr ''ping''])) = Inl TypeError"
proof -
  have 1: "unpackb example_deps Garbage = None"
    by (simp add: example_deps_def)
  have 2: "unpackb example_deps (Packed (PDict [(PStr ''uuid'', PStr ''abc123'')])) =
      Some (PDict [(PStr ''uuid'', PStr ''abc123'')])"
    by (simp add: example_deps_def)
  have 3: "map_of [(PStr ''uuid'', PStr ''abc123'')] (PStr ''message'') = None"
    by simp
  have 4: "unpackb example_deps (Packed (PList [PStr ''ping''])) = Some (PTuple [PStr ''ping''])"
    by (simp add: example_deps_def)
  have 5: "\<not> is_dict (PTuple [PStr ''ping''])"
    by (simp add: is_dict_def)
  have 6: "from_msgpack example_deps Garbage = Inl UnpackError"
    using 1 malformed_encoding [of example_deps Garbage "[]" PNone] by blast
  have 7: "from_msgpack example_deps (Packed (PDict [(PStr ''uuid'', PStr ''abc123'')])) =
     Inl (KeyError (PStr ''message''))"
    using 2 3 malformed_encoding [of example_deps
        "Packed (PDict [(PStr ''uuid'', PStr ''abc123'')])"
        "[(PStr ''uuid'', PStr ''abc123'')]" PNone]
    by blast
  have 8: "from_msgpack example_deps (Packed (PList [PStr ''ping''])) = Inl TypeError"
    using 4 5 malformed_encoding [of example_deps "Packed (PList [PStr ''ping''])" "[]"
        "PTuple [PStr ''ping'']"]
    by blast
  from 1 2 3 4 5 6 7 8 show ?thesis
    by (intro conjI)
qed

theorem malformed_encoding_counterexample:
  "from_msgpack example_deps Garbage = Inl UnpackError \<and>
   from_msgpack example_deps (Packed (PDict [(PStr ''uuid'', PStr ''abc123'')])) =
     Inl (KeyError (PStr ''message'')) \<and>
   from_msgpack example_deps (Packed (PInt 5)) = Inl TypeError \<and>
   UnpackError \<noteq> KeyError (PStr ''message'') \<and>
   KeyError (PStr ''message'') \<noteq> TypeError \<and>
   map_of tuple_tag_data (PStr ''message'') = Some (PTuple [PStr ''ping'', PStr ''pong'']) \<and>
   from_msgpack example_deps (Packed (PDict tuple_tag_data)) = Inl TypeError"
  by (simp add: from_msgpack_def unknown_request_def tuple_tag_data_def example_deps_def)

text \<open>
  C9. Tags are compared as they are, letter case included: a string that differs from its
  lower-cased form, and whose lower-cased form is a known tag, is none of the known tags,
  and decoding a map with it as \<open>message\<close> entry fails as for any unknown message type.
\<close>

theorem tag_case_sensitive:
  assumes "unpackb D raw = Some (PDict d)"
    and "map_of d (PStr ''message'') = Some (PStr t)"
    and "lower t \<in> set known_tags"
    and "t \<noteq> lower t"
    and "ERRORS D 2 = Some title"
  shows "from_msgpack D raw =
           Inl (ValueError 2 title [(''context'', t @ '' is not a valid message type.'')])"
proof -
  have "t \<notin> set known_tags"
    using assms(4) known_tag_lower [of t] by auto
  then show ?thesis
    using from_msgpack_unknown [OF assms(1,2)] unknown_request_string [OF assms(5)]
    by simp
qed

theorem tag_case_sensitive_witness:
  "unpackb example_deps (Packed (PDict [(PStr ''message'', PStr ''Ping'')])) =
     Some (PDict [(PStr ''message'', PStr ''Ping'')]) \<and>
   map_of [(PStr ''message'', PStr ''Ping'')] (PStr ''message'') = Some (PStr ''Ping'') \<and>
   lower ''Ping'' \<in> set known_tags \<and>
   ''Ping'' \<noteq> lower ''Ping'' \<and>
   ERRORS example_deps 2 = Some ''Unknown message type'' \<and>
   from_msgpack example_deps (Packed (PDict [(PStr ''message'', PStr ''Ping'')])) =
     Inl (ValueError 2 ''Unknown message type''
       [(''context'', ''Ping is not a valid message type.'')])"
proof -
  have 1: "unpackb example_deps (Packed (PDict [(PStr ''message'', PStr ''Ping'')])) =
      Some (PDict [(PStr ''message'', PStr ''Ping'')])"
    by (simp add: example_deps_def)
  have 2: "map_of [(PStr ''message'', PStr ''Ping'')] (PStr ''message'') = Some (PStr ''Ping'')"
    by simp
  have 3: "lower ''Ping'' \<in> set known_tags"
    by (simp add: known_tags_def lower_def lower_char_def)
  have 4: "''Ping'' \<noteq> lower ''Ping''"
    by (simp add: lower_def lower_char_def)
  have 5: "ERRORS example_deps 2 = Some ''Unknown message type''"
    by (simp add: example_deps_def)
  show ?thesis
    using 1 2 3 4 5 tag_case_sensitive [OF 1 2 3 4 5] by simp
qed

subsection \<open>Construction of messages\<close>

text \<open>
  C10. \<open>make_message\<close> returns a message exactly when the loop over the fields ends with
  an empty error dict, which is when every field of the class is in the data and accepted
  by its registered validator; the message is then of the given class, and its values are
  the data's values for the fields, in the order of the fields.
\<close>

theorem constructed_message_invariant:
  "make_message D k data = Inr m \<longleftrightarrow>
     validate_fields (VALIDATORS D) data (fields k) [] [] = Inr (args_of m, []) \<and>
     klass_of m = k \<and>
     list_all2 (\<lambda>f v. map_of data (PStr f) = Some v \<and>
                  (case VALIDATORS D f of None \<Rightarrow> False | Some validator \<Rightarrow> validator v))
       (fields k) (args_of m)"
proof -
  have eq: "accepted (VALIDATORS D) data =
      (\<lambda>f v. map_of data (PStr f) = Some v \<and>
         (case VALIDATORS D f of None \<Rightarrow> False | Some validator \<Rightarrow> validator v))"
    by (simp add: accepted_def fun_eq_iff)
  show ?thesis
    using make_message_Inr_iff [of D k data m]
      validate_fields_clean [of "VALIDATORS D" data "fields k" "[]" "[]" "args_of m"]
    by (auto simp add: eq)
qed

theorem constructed_message_invariant_witness:
  "make_message example_deps Ping (ping_data node64) = Inr ping_message \<and>
   validate_fields (VALIDATORS example_deps) (ping_data node64) (fields Ping) [] [] =
     Inr (args_of ping_message, []) \<and>
   klass_of ping_message = Ping \<and>
   list_all2 (\<lambda>f v. map_of (ping_data node64) (PStr f) = Some v \<and>
                (case VALIDATORS example_deps f of None \<Rightarrow> False | Some validator \<Rightarrow> validator v))
     (fields Ping) (args_of ping_message)"
proof -
  have 1: "make_message example_deps Ping (ping_data node64) = Inr ping_message"
    by (simp add: make_message_def construct_def ping_data_def ping_message_def example_simps)
  show ?thesis
    using 1 constructed_message_invariant [of example_deps Ping "ping_data node64" ping_message]
    by blast
qed

text \<open>
  C5 (as amended). For a decoded map with the tag of a class (all of whose fields have a
  validator, the catalogue having the code 2): if the map omits a field of the class,
  decoding fails with the \<open>ValueError\<close> that reports this field as missing; and entries
  beyond \<open>message\<close> and the fields of the class are not looked at, so that two maps that
  agree on these keys decode to the same result. The claim as stated fails in its first
  half: a map with an additional entry decodes to a message.
\<close>

theorem closed_field_set_amended:
  assumes "unpackb D raw = Some (PDict d)"
    and "map_of d (PStr ''message'') = Some (PStr (tag k))"
    and "registered D k"
    and "ERRORS D 2 = Some title"
  shows "(\<forall>f. f \<in> set (fields k) \<and> map_of d (PStr f) = None \<longrightarrow>
            (\<exists>errors. from_msgpack D raw = Inl (ValueError 2 title errors) \<and>
                       (f, ''Missing field.'') \<in> set errors)) \<and>
         (\<forall>raw' d'. unpackb D raw' = Some (PDict d') \<and>
              list_all (\<lambda>f. map_of d' (PStr f) = map_of d (PStr f)) (''message'' # fields k) \<longrightarrow>
              from_msgpack D raw' = from_msgpack D raw)"
proof (intro conjI allI impI)
  fix f
  assume f: "f \<in> set (fields k) \<and> map_of d (PStr f) = None"
  then have "list_ex (\<lambda>f. missing d f \<or> invalid (VALIDATORS D) d f) (fields k)"
    by (auto simp add: list_ex_iff missing_def)
  then have "from_msgpack D raw =
      Inl (ValueError 2 title (field_errors (VALIDATORS D) d (fields k)))"
    using from_msgpack_known [OF assms(1,2)] make_message_errors [OF assms(3,4)] by simp
  moreover have "(f, ''Missing field.'') \<in> set (field_errors (VALIDATORS D) d (fields k))"
    using f by (simp add: missing_reported missing_def)
  ultimately show "\<exists>errors. from_msgpack D raw = Inl (ValueError 2 title errors) \<and>
      (f, ''Missing field.'') \<in> set errors"
    by blast
next
  fix raw' d'
  assume a: "unpackb D raw' = Some (PDict d') \<and>
    list_all (\<lambda>f. map_of d' (PStr f) = map_of d (PStr f)) (''message'' # fields k)"
  then have "map_of d' (PStr ''message'') = Some (PStr (tag k))"
    using assms(2) by simp
  with a have "from_msgpack D raw' = make_message D k d'"
    by (simp add: from_msgpack_known)
  also have "\<dots> = make_message D k d"
    using a by (intro make_message_cong) simp
  also have "\<dots> = from_msgpack D raw"
    using from_msgpack_known [OF assms(1,2)] by simp
  finally show "from_msgpack D raw' = from_msgpack D raw" .
qed

theorem closed_field_set_amended_witness:
  "unpackb example_deps (Packed (PDict ping_without_version)) = Some (PDict ping_without_version) \<and>
   map_of ping_without_version (PStr ''message'') = Some (PStr (tag Ping)) \<and>
   registered example_deps Ping \<and>
   ERRORS example_deps 2 = Some ''Unknown message type'' \<and>
   ''version'' \<in> set (fields Ping) \<and>
   map_of ping_without_version (PStr ''version'') = None \<and>
   from_msgpack example_deps (Packed (PDict ping_without_version)) =
     Inl (ValueError 2 ''Unknown message type'' [(''version'', ''Missing field.'')]) \<and>
   unpackb example_deps (Packed (PDict (ping_without_version @ [(PStr ''extra'', PInt 1)]))) =
     Some (PDict (ping_without_version @ [(PStr ''extra'', PInt 1)])) \<and>
   list_all (\<lambda>f. map_of (ping_without_version @ [(PStr ''extra'', PInt 1)]) (PStr f) =
                 map_of ping_without_version (PStr f)) (''message'' # fields Ping) \<and>
   from_msgpack example_deps (Packed (PDict (ping_without_version @ [(PStr ''extra'', PInt 1)]))) =
     from_msgpack example_deps (Packed (PDict ping_without_version))"
proof -
  have 1: "unpackb example_deps (Packed (PDict ping_without_version)) =
      Some (PDict ping_without_version)"
    by (simp add: example_deps_def ping_without_version_def node64_def)
  have 2: "map_of ping_without_version (PStr ''message'') = Some (PStr (tag Ping))"
    by (simp add: ping_without_version_def tag_simps)
  have 3: "registered example_deps Ping"
    by (simp add: registered_def example_deps_def spec_VALIDATORS_def)
  have 4: "ERRORS example_deps 2 = Some ''Unknown message type''"
    by (simp add: example_deps_def)
  have 5: "''version'' \<in> set (fields Ping)"
    by simp
  have 6: "map_of ping_without_version (PStr ''version'') = None"
    by (simp add: ping_without_version_def)
  have 7: "from_msgpack example_deps (Packed (PDict ping_without_version)) =
     Inl (ValueError 2 ''Unknown message type'' [(''version'', ''Missing field.'')])"
    by (simp add: from_msgpack_def make_message_def ping_without_version_def example_simps)
  have 8: "unpackb example_deps (Packed (PDict (ping_without_version @ [(PStr ''extra'', PInt 1)]))) =
     Some (PDict (ping_without_version @ [(PStr ''extra'', PInt 1)]))"
    by (simp add: example_deps_def ping_without_version_def node64_def)
  have 9: "list_all (\<lambda>f. map_of (ping_without_version @ [(PStr ''extra'', PInt 1)]) (PStr f) =
                 map_of ping_without_version (PStr f)) (''message'' # fields Ping)"
    by (simp add: ping_without_version_def)
  have 10: "from_msgpack example_deps (Packed (PDict (ping_without_version @ [(PStr ''extra'', PInt 1)]))) =
     from_msgpack example_deps (Packed (PDict ping_without_version))"
    using conjunct2 [OF closed_field_set_amended [OF 1 2 3 4]] 8 9 by blast
  from 1 2 3 4 5 6 7 8 9 10 show ?thesis
    by (intro conjI)
qed

theorem closed_field_set_counterexample:
  "map_of ping_with_extra (PStr ''extra'') = Some (PInt 1) \<and>
   ''extra'' \<notin> set (''message'' # fields Ping) \<and>
   from_msgpack example_deps (Packed (PDict ping_with_extra)) = Inr ping_message"
  by (simp add: from_msgpack_def make_message_def construct_def ping_with_extra_def
      ping_data_def ping_message_def example_simps)

text \<open>
  C8. With the validators of the spec and a catalogue that has the code 2, decoding the
  map of tag \<open>ping\<close>, uuid \<open>abc123\<close>, a node id and version \<open>1.0\<close> gives the \<open>Ping\<close> of
  these three values when the node id has 64 bytes, and fails with the \<open>ValueError\<close>
  whose dict is exactly \<open>node\<close> with an invalid value when the node id has 8 bytes.
\<close>

theorem ping_scenario:
  assumes "unpackb D raw = Some (PDict d)"
    and "map_of d = map_of (ping_data (PStr n))"
    and "VALIDATORS D = spec_VALIDATORS"
    and "ERRORS D 2 = Some title"
  shows "(length n = 64 \<longrightarrow>
            from_msgpack D raw = Inr (Message Ping [PStr ''abc123'', PStr n, PStr ''1.0''])) \<and>
         (length n = 8 \<longrightarrow>
            from_msgpack D raw = Inl (ValueError 2 title [(''node'', ''Invalid value.'')]))"
proof -
  have tagged: "map_of d (PStr ''message'') = Some (PStr (tag Ping))"
    using assms(2) by (simp add: ping_data_def tag_simps)
  have run: "from_msgpack D raw = make_message D Ping d"
    using from_msgpack_known [OF assms(1) tagged] .
  have same: "make_message D Ping d = make_message D Ping (ping_data (PStr n))"
    by (rule make_message_cong) (simp add: assms(2))
  show ?thesis
    unfolding run same
    using assms(3,4)
    by (simp add: make_message_def construct_def ping_data_def spec_VALIDATORS_def
        is_nonempty_string_def is_bytes_of_length_def is_string_or_integer_def)
qed

theorem ping_scenario_witness:
  "unpackb example_deps (Packed (PDict (ping_data node64))) = Some (PDict (ping_data node64)) \<and>
   unpackb example_deps (Packed (PDict (ping_data node8))) = Some (PDict (ping_data node8)) \<and>
   VALIDATORS example_deps = spec_VALIDATORS \<and>
   ERRORS example_deps 2 = Some ''Unknown message type'' \<and>
   from_msgpack example_deps (Packed (PDict (ping_data node64))) =
     Inr (Message Ping [PStr ''abc123'', node64, PStr ''1.0'']) \<and>
   from_msgpack example_deps (Packed (PDict (ping_data node8))) =
     Inl (ValueError 2 ''Unknown message type'' [(''node'', ''Invalid value.'')])"
proof -
  have 1: "unpackb example_deps (Packed (PDict (ping_data node64))) = Some (PDict (ping_data node64))"
    by (simp add: example_deps_def ping_data_def node64_def)
  have 2: "unpackb example_deps (Packed (PDict (ping_data node8))) = Some (PDict (ping_data node8))"
    by (simp add: example_deps_def ping_data_def node8_def)
  have 3: "VALIDATORS example_deps = spec_VALIDATORS"
    by (simp add: example_deps_def)
  have 4: "ERRORS example_deps 2 = Some ''Unknown message type''"
    by (simp add: example_deps_def)
  have 5: "from_msgpack example_deps (Packed (PDict (ping_data node64))) =
     Inr (Message Ping [PStr ''abc123'', node64, PStr ''1.0''])"
    using ping_scenario [OF 1 [unfolded node64_def] refl 3 4] by (simp add: node64_def)
  have 6: "from_msgpack example_deps (Packed (PDict (ping_data node8))) =
     Inl (ValueError 2 ''Unknown message type'' [(''node'', ''Invalid value.'')])"
    using ping_scenario [OF 2 [unfolded node8_def] refl 3 4] by (simp add: node8_def)
  from 1 2 3 4 5 6 show ?thesis
    by (intro conjI)
qed

subsection \<open>Encoding\<close>

text \<open>
  C6 (as amended). For a message with one value per field, \<open>to_msgpack\<close> hands one dict
  to \<open>packb\<close> and returns what \<open>packb\<close> returns. The keys of the dict are the field names
  followed by \<open>message\<close>; each field name is mapped to the value of the field, and
  \<open>message\<close> to the lower-cased class name, which is one of the eight known tags (a name
  of two words gives one word, as in \<open>findnode\<close>). Encoding fails exactly when \<open>packb\<close>
  raises on this dict; with a library that packs every packable value, it does not fail on
  a message whose values are packable. The claim as stated, that encoding never fails,
  does not hold: \<open>packb\<close> raises on an integer that does not fit in 64 bits, and nothing
  in \<open>to_msgpack\<close> keeps such a value away from it.
\<close>

theorem encode_output_shape:
  assumes "is_instance m"
  shows "to_msgpack D m =
           (case packb D (PDict (wire_dict m)) of None \<Rightarrow> Inl PackError | Some raw \<Rightarrow> Inr raw) \<and>
         map fst (wire_dict m) = map PStr (fields (klass_of m) @ [''message'']) \<and>
         list_all2 (\<lambda>f v. map_of (wire_dict m) (PStr f) = Some v)
           (fields (klass_of m)) (args_of m) \<and>
         map_of (wire_dict m) (PStr ''message'') = Some (PStr (lower (class_name (klass_of m)))) \<and>
         lower (class_name (klass_of m)) \<in> set known_tags \<and>
         map (\<lambda>k. lower (class_name k))
           [Error, Ping, Pong, Store, FindNode, Nodes, FindValue, Value] = known_tags \<and>
         ((\<forall>v. packable v \<longrightarrow> packb D v \<noteq> None) \<and> list_all packable (args_of m) \<longrightarrow>
            (\<exists>raw. to_msgpack D m = Inr raw))"
proof -
  have len: "length (args_of m) = length (fields (klass_of m))"
    using assms by (simp add: is_instance_def)
  have tags: "map (\<lambda>k. lower (class_name k))
      [Error, Ping, Pong, Store, FindNode, Nodes, FindValue, Value] = known_tags"
    using tag_simps by (simp add: tag_def known_tags_def)
  have shape: "to_msgpack D m =
           (case packb D (PDict (wire_dict m)) of None \<Rightarrow> Inl PackError | Some raw \<Rightarrow> Inr raw) \<and>
         map fst (wire_dict m) = map PStr (fields (klass_of m) @ [''message'']) \<and>
         list_all2 (\<lambda>f v. map_of (wire_dict m) (PStr f) = Some v)
           (fields (klass_of m)) (args_of m) \<and>
         map_of (wire_dict m) (PStr ''message'') = Some (PStr (lower (class_name (klass_of m)))) \<and>
         lower (class_name (klass_of m)) \<in> set known_tags"
    using to_msgpack_wire_dict [of D m] wire_dict_keys [OF len] asdict_lookup [OF len]
      wire_dict_message [OF len] tag_known [of "klass_of m"]
    by (simp add: tag_def)
  have packed: "\<exists>raw. to_msgpack D m = Inr raw"
    if "\<forall>v. packable v \<longrightarrow> packb D v \<noteq> None" and "list_all packable (args_of m)"
  proof -
    from that have "packb D (PDict (wire_dict m)) \<noteq> None"
      using packable_wire_dict by blast
    then show ?thesis
      by (auto simp add: to_msgpack_wire_dict)
  qed
  from shape tags packed show ?thesis
    by blast
qed

theorem encode_output_shape_witness:
  "is_instance findnode_message \<and>
   list_all packable (args_of findnode_message) \<and>
   wire_dict findnode_message =
     [(PStr ''uuid'', PStr ''abc123''), (PStr ''node'', node64), (PStr ''key'', node64),
      (PStr ''version'', PStr ''1.0''), (PStr ''message'', PStr ''findnode'')] \<and>
   to_msgpack example_deps findnode_message = Inr (Packed (PDict (wire_dict findnode_message))) \<and>
   (\<exists>raw. to_msgpack example_deps findnode_message = Inr raw) \<and>
   map fst (wire_dict findnode_message) =
     [PStr ''uuid'', PStr ''node'', PStr ''key'', PStr ''version'', PStr ''message''] \<and>
   map_of (wire_dict findnode_message) (PStr ''message'') = Some (PStr ''findnode'')"
proof -
  have 1: "is_instance findnode_message"
    by (simp add: is_instance_def findnode_message_def)
  have 2: "wire_dict findnode_message =
     [(PStr ''uuid'', PStr ''abc123''), (PStr ''node'', node64), (PStr ''key'', node64),
      (PStr ''version'', PStr ''1.0''), (PStr ''message'', PStr ''findnode'')]"
    by (simp add: wire_dict_def asdict_def findnode_message_def tag_simps)
  have 3: "list_all packable (args_of findnode_message)"
    by (simp add: packable_def findnode_message_def node64_def)
  have 4: "\<forall>v. packable v \<longrightarrow> packb example_deps v \<noteq> None"
    by (simp add: example_deps_def wire_packb_def)
  have 5: "packb example_deps (PDict (wire_dict findnode_message)) =
      Some (Packed (PDict (wire_dict findnode_message)))"
    using 3 by (simp add: example_deps_def wire_packb_def packable_wire_dict)
  have 6: "klass_of findnode_message = FindNode"
    by (simp add: findnode_message_def)
  have 7: "lower ''FindNode'' = ''findnode''"
    by (simp add: lower_def lower_char_def)
  note shape = encode_output_shape [OF 1, of example_deps]
  from shape 3 4 have 8: "\<exists>raw. to_msgpack example_deps findnode_message = Inr raw"
    by blast
  from shape
  have "to_msgpack example_deps findnode_message = Inr (Packed (PDict (wire_dict findnode_message)))"
    and "map fst (wire_dict findnode_message) = map PStr (fields FindNode @ [''message''])"
    and "map_of (wire_dict findnode_message) (PStr ''message'') = Some (PStr ''findnode'')"
    by (simp_all add: 5 6 7)
  then show ?thesis
    using 1 2 3 8 by simp
qed

theorem encode_output_shape_counterexample:
  "is_instance big_version_ping \<and>
   passes_validators example_deps big_version_ping \<and>
   to_msgpack example_deps big_version_ping = Inl PackError"
proof -
  have 1: "is_instance big_version_ping"
    by (simp add: is_instance_def big_version_ping_def)
  have 2: "passes_validators example_deps big_version_ping"
    by (simp add: passes_validators_def big_version_ping_def example_simps)
  have "wire_dict big_version_ping =
     [(PStr ''uuid'', PStr ''abc123''), (PStr ''node'', node64),
      (PStr ''version'', PInt (2 ^ 64)), (PStr ''message'', PStr ''ping'')]"
    by (simp add: wire_dict_def asdict_def big_version_ping_def tag_simps)
  then have "\<not> packable (PDict (wire_dict big_version_ping))"
    by (simp add: packable_def node64_def)
  then have 3: "to_msgpack example_deps big_version_ping = Inl PackError"
    by (simp add: to_msgpack_wire_dict example_deps_def wire_packb_def)
  from 1 2 3 show ?thesis
    by (intro conjI)
qed

end
